theory Spec2Isabelle
  imports Main "HOL-Library.Word"
begin

unbundle bit_operations_syntax

section \<open>Values of the program\<close>

text \<open>
  Python \<open>bytes\<close> are lists of 8-bit words. A Python \<open>str\<close> is a list of code points
  (natural numbers up to 0x10FFFF, lone surrogates included), since \<open>str.encode()\<close> treats
  surrogates differently from every other code point.
\<close>

type_synonym bytes = "8 word list"
type_synonym str = "nat list"

datatype error = UnicodeEncodeError | UnicodeDecodeError | InvalidToken | ValueError
  | RuntimeError | FileNotFoundError | PermissionError | OSError | AttributeError

definition byte :: "nat \<Rightarrow> 8 word" where
  "byte n = of_nat n"

subsection \<open>\<open>str.encode()\<close> and \<open>bytes.decode()\<close>: strict UTF-8\<close>

text \<open>
  \<open>encode_char\<close> is the UTF-8 form of one code point. Surrogates (0xD800 to 0xDFFF) have
  none: Python raises UnicodeEncodeError. No \<open>str\<close> holds a code point from 0x110000 on;
  the model refuses it as well.
\<close>

definition encode_char :: "nat \<Rightarrow> bytes option" where
  "encode_char c =
     (if c < 0x80 then Some [byte c]
      else if c < 0x800 then Some [byte (0xC0 + c div 64), byte (0x80 + c mod 64)]
      else if 0xD800 \<le> c \<and> c < 0xE000 then None
      else if c < 0x10000 then
        Some [byte (0xE0 + c div 4096), byte (0x80 + c div 64 mod 64), byte (0x80 + c mod 64)]
      else if c < 0x110000 then
        Some [byte (0xF0 + c div 262144), byte (0x80 + c div 4096 mod 64),
              byte (0x80 + c div 64 mod 64), byte (0x80 + c mod 64)]
      else None)"

fun str_encode :: "str \<Rightarrow> error + bytes" where
  "str_encode [] = Inr []"
| "str_encode (c # cs) =
     (case encode_char c of
        None \<Rightarrow> Inl UnicodeEncodeError
      | Some bs \<Rightarrow> (case str_encode cs of Inl e \<Rightarrow> Inl e | Inr r \<Rightarrow> Inr (bs @ r)))"

definition continuation :: "8 word \<Rightarrow> bool" where
  "continuation b = (0x80 \<le> unat b \<and> unat b < 0xC0)"

definition emit :: "nat \<Rightarrow> error + str \<Rightarrow> error + str" where
  "emit c r = (case r of Inl e \<Rightarrow> Inl e | Inr cs \<Rightarrow> Inr (c # cs))"

text \<open>
  The strict decoder: a lead byte fixes the length of the sequence, every further byte must be
  a continuation byte, and overlong forms, surrogates and values above 0x10FFFF are refused
  with UnicodeDecodeError.
\<close>

fun bytes_decode :: "bytes \<Rightarrow> error + str" where
  "bytes_decode [] = Inr []"
| "bytes_decode (b # bs) =
     (let n = unat b in
      if n < 0x80 then emit n (bytes_decode bs)
      else if 0xC2 \<le> n \<and> n < 0xE0 then
        (case bs of
           b1 # r \<Rightarrow>
             if continuation b1
             then emit ((n - 0xC0) * 64 + (unat b1 - 0x80)) (bytes_decode r)
             else Inl UnicodeDecodeError
         | _ \<Rightarrow> Inl UnicodeDecodeError)
      else if 0xE0 \<le> n \<and> n < 0xF0 then
        (case bs of
           b1 # b2 # r \<Rightarrow>
             (let c = (n - 0xE0) * 4096 + (unat b1 - 0x80) * 64 + (unat b2 - 0x80) in
              if continuation b1 \<and> continuation b2 \<and> 0x800 \<le> c
                 \<and> \<not> (0xD800 \<le> c \<and> c < 0xE000)
              then emit c (bytes_decode r)
              else Inl UnicodeDecodeError)
         | _ \<Rightarrow> Inl UnicodeDecodeError)
      else if 0xF0 \<le> n \<and> n < 0xF5 then
        (case bs of
           b1 # b2 # b3 # r \<Rightarrow>
             (let c = (n - 0xF0) * 262144 + (unat b1 - 0x80) * 4096
                      + (unat b2 - 0x80) * 64 + (unat b3 - 0x80) in
              if continuation b1 \<and> continuation b2 \<and> continuation b3
                 \<and> 0x10000 \<le> c \<and> c < 0x110000
              then emit c (bytes_decode r)
              else Inl UnicodeDecodeError)
         | _ \<Rightarrow> Inl UnicodeDecodeError)
      else Inl UnicodeDecodeError)"

text \<open>
  \<open>scalar\<close> holds of the code points that have a UTF-8 form, \<open>utf8\<close> is the encoding of a
  string of such code points, and \<open>ascii\<close> holds of bytes that are all below 0x80, as the
  url-safe base64 text of a Fernet token is.
\<close>

definition scalar :: "nat \<Rightarrow> bool" where
  "scalar c = (c < 0x110000 \<and> \<not> (0xD800 \<le> c \<and> c < 0xE000))"

definition utf8 :: "str \<Rightarrow> bytes" where
  "utf8 s = concat (map (\<lambda>c. case encode_char c of None \<Rightarrow> [] | Some bs \<Rightarrow> bs) s)"

definition ascii :: "bytes \<Rightarrow> bool" where
  "ascii bs = list_all (\<lambda>b. unat b < 0x80) bs"

section \<open>The cryptography library\<close>

text \<open>
  \<open>crypto.py\<close> calls the \<open>cryptography\<close> package for every primitive. The package is not
  part of the repository, so its entry points are the fields of a record that every
  operation of the program takes as its first argument. Randomness (\<open>os.urandom\<close>) and the
  clock are the explicit \<open>bytes\<close> argument of the entry points that draw on them.
  \<^item> \<open>generate_key\<close>: \<open>Fernet.generate_key()\<close>;
  \<^item> \<open>fernet_accepts\<close>: the constructor \<open>Fernet(key)\<close> returns (it raises ValueError on a
    key that is not 32 url-safe base64-encoded bytes);
  \<^item> \<open>fernet_encrypt\<close>, \<open>fernet_decrypt\<close>: \<open>Fernet.encrypt\<close>, and \<open>Fernet.decrypt\<close> with
    \<open>None\<close> for the exception InvalidToken;
  \<^item> \<open>load_pem_private_key\<close>: \<open>serialization.load_pem_private_key\<close>, \<open>None\<close> when it raises;
  \<^item> \<open>oaep_decrypt\<close>: \<open>private_key.decrypt\<close> under OAEP with SHA-256, \<open>None\<close> when it raises;
  \<^item> \<open>generate_private_key\<close>: \<open>rsa.generate_private_key\<close> (exponent, key size, randomness);
  \<^item> \<open>private_bytes\<close>, \<open>public_bytes\<close>: the PEM serialisations of a private key and of its
    public key.
\<close>

record 'k backend =
  generate_key :: "bytes \<Rightarrow> bytes"
  fernet_accepts :: "bytes \<Rightarrow> bool"
  fernet_encrypt :: "bytes \<Rightarrow> bytes \<Rightarrow> bytes \<Rightarrow> bytes"
  fernet_decrypt :: "bytes \<Rightarrow> bytes \<Rightarrow> bytes option"
  load_pem_private_key :: "bytes \<Rightarrow> 'k option"
  oaep_decrypt :: "'k \<Rightarrow> bytes \<Rightarrow> bytes option"
  generate_private_key :: "nat \<Rightarrow> nat \<Rightarrow> bytes \<Rightarrow> 'k"
  private_bytes :: "'k \<Rightarrow> bytes"
  public_bytes :: "'k \<Rightarrow> bytes"

text \<open>
  A test double of the library, used to run the model on concrete inputs: a token is the key
  followed by the data, a wrapped session key is the private key followed by the session key.
  It offers no secrecy and stands for no property of the real library.
\<close>

definition strip_prefix :: "bytes \<Rightarrow> bytes \<Rightarrow> bytes option" where
  "strip_prefix p xs = (if take (length p) xs = p then Some (drop (length p) xs) else None)"

definition double :: "bytes backend" where
  "double =
     \<lparr> generate_key = (\<lambda>rnd. byte 0x4B # rnd),
       fernet_accepts = (\<lambda>k. k \<noteq> []),
       fernet_encrypt = (\<lambda>k rnd d. k @ d),
       fernet_decrypt = (\<lambda>k t. strip_prefix k t),
       load_pem_private_key = (\<lambda>pem. if pem = [] then None else Some pem),
       oaep_decrypt = (\<lambda>k env. strip_prefix k env),
       generate_private_key = (\<lambda>e bits rnd. byte 0x50 # rnd),
       private_bytes = (\<lambda>k. k),
       public_bytes = (\<lambda>k. rev k) \<rparr>"










section \<open>\<open>MessageEncryption\<close>\<close>

datatype fernet = Fernet (fernet_key: bytes)

record message_encryption =
  key :: bytes
  cipher :: fernet

text \<open>
  \<open>__init__\<close>: \<open>if key:\<close> is false for \<open>None\<close> and for the empty \<open>bytes\<close>; both draw
  a generated key. \<open>Fernet(self.key)\<close> raises ValueError on a key it does not accept.
\<close>

definition MessageEncryption :: "'k backend \<Rightarrow> bytes \<Rightarrow> bytes option \<Rightarrow> error + message_encryption" where
  "MessageEncryption L rnd k =
     (let k' = (case k of None \<Rightarrow> generate_key L rnd
                | Some x \<Rightarrow> if x \<noteq> [] then x else generate_key L rnd)
      in if fernet_accepts L k' then Inr \<lparr> key = k', cipher = Fernet k' \<rparr> else Inl ValueError)"

definition encrypt :: "'k backend \<Rightarrow> bytes \<Rightarrow> message_encryption \<Rightarrow> str \<Rightarrow> error + str" where
  "encrypt L rnd me message =
     (case str_encode message of
        Inl e \<Rightarrow> Inl e
      | Inr data \<Rightarrow> bytes_decode (fernet_encrypt L (fernet_key (cipher me)) rnd data))"

definition decrypt :: "'k backend \<Rightarrow> message_encryption \<Rightarrow> str \<Rightarrow> error + str" where
  "decrypt L me encrypted_message =
     (case str_encode encrypted_message of
        Inl e \<Rightarrow> Inl e
      | Inr token \<Rightarrow>
          (case fernet_decrypt L (fernet_key (cipher me)) token of
             None \<Rightarrow> Inl InvalidToken
           | Some decrypted \<Rightarrow> bytes_decode decrypted))"

definition get_key :: "message_encryption \<Rightarrow> bytes" where
  "get_key me = key me"

text \<open>
  \<open>update_key\<close> assigns \<open>self.key\<close> first; when \<open>Fernet(new_key)\<close> raises, the field \<open>key\<close>
  is already the new one and \<open>cipher\<close> still the old one. The result is the outcome together
  with the instance afterwards.
\<close>

definition update_key :: "'k backend \<Rightarrow> message_encryption \<Rightarrow> bytes \<Rightarrow> (error + unit) \<times> message_encryption" where
  "update_key L me new_key =
     (let me1 = me\<lparr> key := new_key \<rparr>
      in if fernet_accepts L new_key then (Inr (), me1\<lparr> cipher := Fernet new_key \<rparr>)
         else (Inl ValueError, me1))"

section \<open>\<open>RSAKeyManager\<close> and \<open>ClientEncryption\<close>\<close>

definition decrypt_with_private_key :: "'k backend \<Rightarrow> bytes \<Rightarrow> bytes \<Rightarrow> error + bytes" where
  "decrypt_with_private_key L private_key_pem encrypted_data =
     (case load_pem_private_key L private_key_pem of
        None \<Rightarrow> Inl ValueError
      | Some k \<Rightarrow>
          (case oaep_decrypt L k encrypted_data of
             None \<Rightarrow> Inl ValueError
           | Some decrypted \<Rightarrow> Inr decrypted))"

record client_encryption =
  private_key :: bytes
  public_key :: bytes
  session_key :: "bytes option"
  encryption :: "message_encryption option"

text \<open>
  \<open>set_session_key_encrypted\<close> has two statements, each of which can raise: the unwrap, whose
  result is assigned to \<open>session_key\<close>, and the construction of the cipher, whose result is
  assigned to \<open>encryption\<close>. An exception in the first leaves both fields as they were; an
  exception in the second leaves \<open>session_key\<close> assigned.
\<close>

definition set_session_key_encrypted ::
  "'k backend \<Rightarrow> bytes \<Rightarrow> client_encryption \<Rightarrow> bytes \<Rightarrow> (error + unit) \<times> client_encryption" where
  "set_session_key_encrypted L rnd ce encrypted_session_key =
     (case decrypt_with_private_key L (private_key ce) encrypted_session_key of
        Inl e \<Rightarrow> (Inl e, ce)
      | Inr sk \<Rightarrow>
          (let ce1 = ce\<lparr> session_key := Some sk \<rparr>
           in case MessageEncryption L rnd (Some sk) of
                Inl e \<Rightarrow> (Inl e, ce1)
              | Inr me \<Rightarrow> (Inr (), ce1\<lparr> encryption := Some me \<rparr>)))"

definition encrypt_message ::
  "'k backend \<Rightarrow> bytes \<Rightarrow> client_encryption \<Rightarrow> str \<Rightarrow> (error + str) \<times> client_encryption" where
  "encrypt_message L rnd ce message =
     (case encryption ce of
        None \<Rightarrow> (Inl RuntimeError, ce)
      | Some me \<Rightarrow> (encrypt L rnd me message, ce))"

definition decrypt_message ::
  "'k backend \<Rightarrow> client_encryption \<Rightarrow> str \<Rightarrow> (error + str) \<times> client_encryption" where
  "decrypt_message L ce encrypted_message =
     (case encryption ce of
        None \<Rightarrow> (Inl RuntimeError, ce)
      | Some me \<Rightarrow> (decrypt L me encrypted_message, ce))"

definition has_session_key :: "client_encryption \<Rightarrow> bool" where
  "has_session_key ce = (encryption ce \<noteq> None)"

text \<open>
  The calls a holder of a \<open>MessageEncryption\<close> can make, and the instance each of them
  leaves behind, whether it returns or raises. \<open>encrypt\<close>, \<open>decrypt\<close> and \<open>get_key\<close> only
  read \<open>self.cipher\<close> and \<open>self.key\<close>.
\<close>

datatype me_call = Encrypt bytes str | Decrypt str | GetKey | UpdateKey bytes

fun call :: "'k backend \<Rightarrow> message_encryption \<Rightarrow> me_call \<Rightarrow> message_encryption" where
  "call L me (Encrypt rnd message) = me"
| "call L me (Decrypt encrypted_message) = me"
| "call L me GetKey = me"
| "call L me (UpdateKey new_key) = snd (update_key L me new_key)"

fun calls :: "'k backend \<Rightarrow> message_encryption \<Rightarrow> me_call list \<Rightarrow> message_encryption" where
  "calls L me [] = me"
| "calls L me (c # cs) = calls L (call L me c) cs"

text \<open>
  The key a history of calls leaves in force, read off the history alone: the last key given
  to \<open>update_key\<close> that the library accepted, and the starting key when there is none.
\<close>

fun key_in_force :: "'k backend \<Rightarrow> bytes \<Rightarrow> me_call list \<Rightarrow> bytes" where
  "key_in_force L k [] = k"
| "key_in_force L k (UpdateKey new_key # cs) =
     key_in_force L (if fernet_accepts L new_key then new_key else k) cs"
| "key_in_force L k (c # cs) = key_in_force L k cs"

subsection \<open>The key store\<close>

text \<open>
  The store is the file \<open>~/.terminal-chat/private.key\<close>: absent, or a file with its contents,
  its permission bits and whether this process may read it. The directory
  \<open>~/.terminal-chat\<close> is absent or has its permission bits. Every call that
  \<open>save_private_key\<close> makes on the file system can raise; what the operating system answers
  is part of the state: \<open>may_mkdir\<close> (the directory can be created in the home directory),
  \<open>may_create\<close> (the file can be opened for writing in the directory), \<open>may_write\<close> (the
  write completes) and \<open>may_chmod\<close> (the mode of the file can be changed). New entries get
  the requested mode without the bits of \<open>umask\<close>. Modes are written in decimal: octal 700
  is 448, octal 666 is 438, octal 600 is 384, octal 400 is 256.
\<close>

record key_file =
  pem :: bytes
  file_mode :: nat
  readable :: bool

record file_system =
  config_dir :: "nat option"
  private_key_file :: "key_file option"
  umask :: nat
  may_mkdir :: bool
  may_create :: bool
  may_write :: bool
  may_chmod :: bool

definition key_size :: nat where
  "key_size = 2048"

definition generate_key_pair :: "'k backend \<Rightarrow> bytes \<Rightarrow> bytes \<times> bytes" where
  "generate_key_pair L rnd =
     (let k = generate_private_key L 65537 key_size rnd in (private_bytes L k, public_bytes L k))"

definition masked :: "nat \<Rightarrow> nat \<Rightarrow> nat" where
  "masked m u = m - (m AND u)"

definition owner_may_read :: "nat \<Rightarrow> bool" where
  "owner_may_read m = (m AND 256 \<noteq> 0)"

text \<open>\<open>config_dir.mkdir(exist_ok=True, mode=0o700)\<close>.\<close>

definition mkdir :: "file_system \<Rightarrow> error + file_system" where
  "mkdir fs =
     (case config_dir fs of
        Some m \<Rightarrow> Inr fs
      | None \<Rightarrow>
          if may_mkdir fs then Inr (fs\<lparr> config_dir := Some (masked 448 (umask fs)) \<rparr>)
          else Inl PermissionError)"

text \<open>\<open>open(filepath, "wb")\<close>: a new file is created empty, an existing one is truncated.\<close>

definition open_wb :: "file_system \<Rightarrow> error + file_system" where
  "open_wb fs =
     (if may_create fs
      then Inr (fs\<lparr> private_key_file :=
                  Some (case private_key_file fs of
                          None \<Rightarrow> \<lparr> pem = [], file_mode = masked 438 (umask fs),
                                    readable = owner_may_read (masked 438 (umask fs)) \<rparr>
                        | Some f \<Rightarrow> f\<lparr> pem := [] \<rparr>) \<rparr>)
      else Inl PermissionError)"

text \<open>\<open>key_file.write(private_key_pem)\<close>, flushed when the \<open>with\<close> block closes the file.\<close>

definition write_key :: "bytes \<Rightarrow> file_system \<Rightarrow> error + file_system" where
  "write_key private_key_pem fs =
     (if may_write fs
      then Inr (fs\<lparr> private_key_file :=
                  map_option (\<lambda>f. f\<lparr> pem := private_key_pem \<rparr>) (private_key_file fs) \<rparr>)
      else Inl OSError)"

text \<open>\<open>os.chmod(filepath, mode)\<close>.\<close>

definition chmod :: "nat \<Rightarrow> file_system \<Rightarrow> error + file_system" where
  "chmod m fs =
     (if may_chmod fs
      then Inr (fs\<lparr> private_key_file :=
                  map_option (\<lambda>f. f\<lparr> file_mode := m, readable := owner_may_read m \<rparr>)
                    (private_key_file fs) \<rparr>)
      else Inl PermissionError)"

text \<open>
  \<open>save_private_key\<close> with the default path runs the four calls in order; the first one
  that raises ends it, with the file system as the calls before it left it. Until \<open>chmod\<close>
  has run, the file has the permissions the umask gave it.
\<close>

definition save_private_key :: "bytes \<Rightarrow> file_system \<Rightarrow> (error + unit) \<times> file_system" where
  "save_private_key private_key_pem fs =
     (case mkdir fs of
        Inl e \<Rightarrow> (Inl e, fs)
      | Inr fs1 \<Rightarrow>
          (case open_wb fs1 of
             Inl e \<Rightarrow> (Inl e, fs1)
           | Inr fs2 \<Rightarrow>
               (case write_key private_key_pem fs2 of
                  Inl e \<Rightarrow> (Inl e, fs2)
                | Inr fs3 \<Rightarrow>
                    (case chmod 384 fs3 of
                       Inl e \<Rightarrow> (Inl e, fs3)
                     | Inr fs4 \<Rightarrow> (Inr (), fs4)))))"

definition can_save :: "file_system \<Rightarrow> bool" where
  "can_save fs =
     ((config_dir fs \<noteq> None \<or> may_mkdir fs) \<and> may_create fs \<and> may_write fs \<and> may_chmod fs)"

text \<open>
  A home directory in which nothing of the store exists yet and nothing is refused, with the
  usual umask 0o022 (decimal 18).
\<close>

definition fresh_home :: file_system where
  "fresh_home =
     \<lparr> config_dir = None, private_key_file = None, umask = 18, may_mkdir = True,
       may_create = True, may_write = True, may_chmod = True \<rparr>"

definition load_private_key :: "file_system \<Rightarrow> error + bytes" where
  "load_private_key fs =
     (case private_key_file fs of
        None \<Rightarrow> Inl FileNotFoundError
      | Some f \<Rightarrow> if readable f then Inr (pem f) else Inl PermissionError)"

text \<open>
  \<open>get_or_create_key_pair\<close>: the \<open>try\<close> block loads and parses the stored key; only
  FileNotFoundError is caught, and its handler generates and saves a new pair. Nothing
  catches what the handler raises. A key that does not parse makes the library raise
  ValueError (or TypeError for an encrypted key, UnsupportedAlgorithm for an unknown one);
  the model's ValueError stands for all of them, none being FileNotFoundError.
\<close>

definition get_or_create_key_pair ::
  "'k backend \<Rightarrow> bytes \<Rightarrow> file_system \<Rightarrow> (error + bytes \<times> bytes) \<times> file_system" where
  "get_or_create_key_pair L rnd fs =
     (case load_private_key fs of
        Inr private_key_pem \<Rightarrow>
          (case load_pem_private_key L private_key_pem of
             None \<Rightarrow> (Inl ValueError, fs)
           | Some k \<Rightarrow> (Inr (private_key_pem, public_bytes L k), fs))
      | Inl e \<Rightarrow>
          if e = FileNotFoundError
          then (let pair = generate_key_pair L rnd
                in case save_private_key (fst pair) fs of
                     (Inl e', fs') \<Rightarrow> (Inl e', fs')
                   | (Inr u, fs') \<Rightarrow> (Inr pair, fs'))
          else (Inl e, fs))"

definition ClientEncryption ::
  "'k backend \<Rightarrow> bytes \<Rightarrow> file_system \<Rightarrow> (error + client_encryption) \<times> file_system" where
  "ClientEncryption L rnd fs =
     (case get_or_create_key_pair L rnd fs of
        (Inl e, fs') \<Rightarrow> (Inl e, fs')
      | (Inr pair, fs') \<Rightarrow>
          (Inr \<lparr> private_key = fst pair, public_key = snd pair,
                 session_key = None, encryption = None \<rparr>, fs'))"

section \<open>\<open>ChatConnection\<close>\<close>

text \<open>
  Modelled from the spec: \<open>client/connection.py\<close> (the class \<open>ChatConnection\<close>) is missing
  from the sources; only its tests are present. The fields and method names are those the
  tests use (\<open>connected\<close>, \<open>reconnect_delay\<close>, \<open>max_reconnect_delay\<close>, \<open>message_queue\<close>,
  \<open>increase_reconnect_delay\<close>, \<open>send_message\<close>, \<open>send_queued_messages\<close>), the behaviour is
  that of sections 3 and 4.3 of the spec. The transport is the list \<open>wire\<close> of the payloads
  it accepted, oldest first; \<open>link i\<close> tells whether the \<open>i\<close>-th send handed to the
  transport succeeds, and \<open>attempts\<close> counts the sends so far.
\<close>

datatype outbound = Message (content: str) (room_id: str)

record chat_connection =
  connected :: bool
  reconnect_delay :: nat
  max_reconnect_delay :: nat
  message_queue :: "outbound list"
  wire :: "outbound list"
  attempts :: nat
  status :: "string list"

definition base_delay :: nat where
  "base_delay = 1"

definition ChatConnection :: chat_connection where
  "ChatConnection =
     \<lparr> connected = False, reconnect_delay = base_delay, max_reconnect_delay = 60,
       message_queue = [], wire = [], attempts = 0, status = [] \<rparr>"

text \<open>Modelled from the spec: \<open>delay' = min(delay * 2, max_delay)\<close>.\<close>

definition increase_reconnect_delay :: "chat_connection \<Rightarrow> chat_connection" where
  "increase_reconnect_delay c =
     c\<lparr> reconnect_delay := min (reconnect_delay c * 2) (max_reconnect_delay c) \<rparr>"

definition transport_send :: "(nat \<Rightarrow> bool) \<Rightarrow> chat_connection \<Rightarrow> outbound \<Rightarrow> bool \<times> chat_connection" where
  "transport_send link c m =
     (if link (attempts c)
      then (True, c\<lparr> wire := wire c @ [m], attempts := Suc (attempts c) \<rparr>)
      else (False, c\<lparr> attempts := Suc (attempts c) \<rparr>))"

definition enqueue :: "chat_connection \<Rightarrow> outbound \<Rightarrow> chat_connection" where
  "enqueue c m =
     c\<lparr> message_queue := message_queue c @ [m], status := status c @ [''offline_queued''] \<rparr>"

text \<open>
  Modelled from the spec: \<open>send_message\<close> sends at once when connected and queues the
  message when the send fails; when not connected it queues without a send.
\<close>

definition send_message :: "(nat \<Rightarrow> bool) \<Rightarrow> chat_connection \<Rightarrow> str \<Rightarrow> str \<Rightarrow> chat_connection" where
  "send_message link c text room =
     (let m = Message text room
      in if connected c
         then (let r = transport_send link c m in if fst r then snd r else enqueue (snd r) m)
         else enqueue c m)"

text \<open>
  Modelled from the spec: \<open>send_queued_messages\<close> sends the queue from its head, one send
  per item, and stops at the first failed send; the failed item and those behind it stay
  queued.
\<close>

fun drain :: "(nat \<Rightarrow> bool) \<Rightarrow> outbound list \<Rightarrow> chat_connection \<Rightarrow> chat_connection" where
  "drain link [] c = c\<lparr> message_queue := [] \<rparr>"
| "drain link (m # q) c =
     (let r = transport_send link c m
      in if fst r then drain link q (snd r) else (snd r)\<lparr> message_queue := m # q \<rparr>)"

definition send_queued_messages :: "(nat \<Rightarrow> bool) \<Rightarrow> chat_connection \<Rightarrow> chat_connection" where
  "send_queued_messages link c = drain link (message_queue c) c"

text \<open>
  Modelled from the spec: \<open>connect\<close>, with \<open>opened\<close> telling whether the transport opened.
  Success resets the delay to \<open>base_delay\<close> and flushes the queue; failure reports it and
  doubles the delay up to the maximum.
\<close>

definition connect :: "(nat \<Rightarrow> bool) \<Rightarrow> bool \<Rightarrow> chat_connection \<Rightarrow> chat_connection" where
  "connect link opened c =
     (if opened
      then send_queued_messages link
             (c\<lparr> connected := True, reconnect_delay := base_delay,
                 status := status c @ [''connected''] \<rparr>)
      else increase_reconnect_delay
             (c\<lparr> connected := False, status := status c @ [''connection_failed''] \<rparr>))"

fun connects :: "(nat \<Rightarrow> bool) \<Rightarrow> bool list \<Rightarrow> chat_connection \<Rightarrow> chat_connection" where
  "connects link [] c = c"
| "connects link (opened # os) c = connects link os (connect link opened c)"

fun send_messages :: "(nat \<Rightarrow> bool) \<Rightarrow> chat_connection \<Rightarrow> (str \<times> str) list \<Rightarrow> chat_connection" where
  "send_messages link c [] = c"
| "send_messages link c (m # ms) = send_messages link (send_message link c (fst m) (snd m)) ms"

section \<open>\<open>ChatScreen\<close>: the typing indicator\<close>

text \<open>
  The part of \<open>ChatScreen\<close> (\<open>ui.py\<close>) that drives the typing indicator. The callback is
  present or not (\<open>typing_indicator_callback\<close>); calling it appends its argument to
  \<open>typing_events\<close>. The framework's timers are the list \<open>timers\<close> of pending handles with
  the time at which each fires; \<open>clock\<close> is the time in seconds. \<open>submitted\<close> collects the
  messages handed to \<open>on_send_message\<close> or \<open>handle_command\<close>, neither of which touches the
  typing state. \<open>posted\<close> holds the messages the framework has queued for the screen as a
  consequence of what a handler did.
\<close>

datatype ui_event = Changed string str | Submitted str | Tick

definition isspace :: "nat \<Rightarrow> bool" where
  "isspace c =
     ((0x09 \<le> c \<and> c \<le> 0x0D) \<or> (0x1C \<le> c \<and> c \<le> 0x20) \<or> c = 0x85 \<or> c = 0xA0
      \<or> c = 0x1680 \<or> (0x2000 \<le> c \<and> c \<le> 0x200A) \<or> c = 0x2028 \<or> c = 0x2029
      \<or> c = 0x202F \<or> c = 0x205F \<or> c = 0x3000)"

definition strip :: "str \<Rightarrow> str" where
  "strip s = rev (dropWhile isspace (rev (dropWhile isspace s)))"

record chat_screen =
  typing_indicator_callback :: bool
  typing_timer :: "nat option"
  is_currently_typing :: bool
  typing_events :: "bool list"
  submitted :: "str list"
  timers :: "(nat \<times> nat) list"
  next_timer :: nat
  clock :: nat
  posted :: "ui_event list"

definition ChatScreen :: chat_screen where
  "ChatScreen =
     \<lparr> typing_indicator_callback = False, typing_timer = None, is_currently_typing = False,
       typing_events = [], submitted = [], timers = [], next_timer = 0, clock = 0,
       posted = [] \<rparr>"

definition set_typing_indicator_callback :: "chat_screen \<Rightarrow> chat_screen" where
  "set_typing_indicator_callback s = s\<lparr> typing_indicator_callback := True \<rparr>"

text \<open>\<open>self.typing_timer = self.set_timer(delay, self.stop_typing_indicator)\<close>.\<close>

definition set_timer :: "nat \<Rightarrow> chat_screen \<Rightarrow> chat_screen" where
  "set_timer delay s =
     s\<lparr> typing_timer := Some (next_timer s),
        timers := timers s @ [(next_timer s, clock s + delay)],
        next_timer := Suc (next_timer s) \<rparr>"

text \<open>
  \<open>self.remove_timer(self.typing_timer)\<close>: \<open>ChatScreen\<close> defines no method of that name and
  the framework class it extends has none, so the call raises AttributeError. The bare
  \<open>except\<close> around it swallows the error: no timer is ever cancelled.
\<close>

definition remove_timer :: "nat \<Rightarrow> chat_screen \<Rightarrow> error + chat_screen" where
  "remove_timer h s = Inl AttributeError"

definition typing_indicator :: "bool \<Rightarrow> chat_screen \<Rightarrow> chat_screen" where
  "typing_indicator is_typing s = s\<lparr> typing_events := typing_events s @ [is_typing] \<rparr>"

definition stop_typing_indicator :: "chat_screen \<Rightarrow> chat_screen" where
  "stop_typing_indicator s =
     (if is_currently_typing s \<and> typing_indicator_callback s
      then (typing_indicator False s)\<lparr> is_currently_typing := False \<rparr>
      else s)"

definition on_input_changed :: "chat_screen \<Rightarrow> string \<Rightarrow> str \<Rightarrow> chat_screen" where
  "on_input_changed s input_id v =
     (if input_id \<noteq> ''message-input'' then s
      else
        (let s1 = (case typing_timer s of
                     None \<Rightarrow> s
                   | Some h \<Rightarrow> (case remove_timer h s of Inl e \<Rightarrow> s | Inr s' \<Rightarrow> s'))
         in if v \<noteq> []
            then
              (let s2 = (if \<not> is_currently_typing s1 \<and> typing_indicator_callback s1
                         then (typing_indicator True s1)\<lparr> is_currently_typing := True \<rparr>
                         else s1)
               in set_timer 3 s2)
            else
              (if is_currently_typing s1 \<and> typing_indicator_callback s1
               then (typing_indicator False s1)\<lparr> is_currently_typing := False \<rparr>
               else s1)))"

text \<open>
  \<open>on_input_submitted\<close> calls the callback with \<open>False\<close> whenever the stripped message is
  not empty and a callback is set. It reads neither \<open>is_currently_typing\<close> nor
  \<open>typing_timer\<close> and assigns neither. Both branches end with \<open>event.input.value = ""\<close>:
  the value of the input changes from the submitted text to the empty string, for which the
  framework posts \<open>Input.Changed\<close> with the empty value to the screen.
\<close>

definition on_input_submitted :: "chat_screen \<Rightarrow> str \<Rightarrow> chat_screen" where
  "on_input_submitted s v =
     (let message = strip v
      in if message \<noteq> []
         then
           (let s1 = (if typing_indicator_callback s then typing_indicator False s else s)
            in s1\<lparr> submitted := submitted s1 @ [message],
                   posted := posted s1 @ [Changed ''message-input'' []] \<rparr>)
         else s)"

text \<open>One second passes: the timers that are due fire, each running \<open>stop_typing_indicator\<close>.\<close>

definition tick :: "chat_screen \<Rightarrow> chat_screen" where
  "tick s =
     (let now = Suc (clock s);
          due = filter (\<lambda>t. snd t \<le> now) (timers s);
          s1 = s\<lparr> clock := now, timers := filter (\<lambda>t. \<not> snd t \<le> now) (timers s) \<rparr>
      in fold (\<lambda>t. stop_typing_indicator) due s1)"

text \<open>
  \<open>handle\<close> is a handler called directly; \<open>run\<close> calls handlers one after the other.
  \<open>dispatch\<close> is what the running application does with an event: it calls the handler and
  then delivers the messages that were posted meanwhile; \<open>app_run\<close> dispatches a sequence
  of events.
\<close>

fun handle :: "chat_screen \<Rightarrow> ui_event \<Rightarrow> chat_screen" where
  "handle s (Changed input_id v) = on_input_changed s input_id v"
| "handle s (Submitted v) = on_input_submitted s v"
| "handle s Tick = tick s"

definition run :: "chat_screen \<Rightarrow> ui_event list \<Rightarrow> chat_screen" where
  "run s es = fold (\<lambda>e s. handle s e) es s"

definition dispatch :: "chat_screen \<Rightarrow> ui_event \<Rightarrow> chat_screen" where
  "dispatch s e =
     (let s1 = handle s e
      in fold (\<lambda>m s. handle s m) (posted s1) (s1\<lparr> posted := [] \<rparr>))"

definition app_run :: "chat_screen \<Rightarrow> ui_event list \<Rightarrow> chat_screen" where
  "app_run s es = fold (\<lambda>e s. dispatch s e) es s"

section \<open>Session key handling\<close>

text \<open>
  Claim C10. On a \<open>ClientEncryption\<close> whose \<open>has_session_key()\<close> is false, \<open>encrypt_message\<close>
  and \<open>decrypt_message\<close> raise RuntimeError for every input and leave the instance as it
  was; the library is never called.
\<close>

theorem no_session_key_raises:
  assumes "\<not> has_session_key ce"
  shows "encrypt_message L rnd ce message = (Inl RuntimeError, ce)
       \<and> decrypt_message L ce encrypted_message = (Inl RuntimeError, ce)"
  using assms by (simp add: has_session_key_def encrypt_message_def decrypt_message_def)

theorem no_session_key_raises_witness:
  "\<not> has_session_key \<lparr> private_key = [byte 0x50], public_key = [byte 0x50],
                        session_key = None, encryption = None \<rparr>
   \<and> encrypt_message double [] \<lparr> private_key = [byte 0x50], public_key = [byte 0x50],
                        session_key = None, encryption = None \<rparr> [0x68, 0x69]
     = (Inl RuntimeError, \<lparr> private_key = [byte 0x50], public_key = [byte 0x50],
                        session_key = None, encryption = None \<rparr>)
   \<and> decrypt_message double \<lparr> private_key = [byte 0x50], public_key = [byte 0x50],
                        session_key = None, encryption = None \<rparr> [0x68, 0x69]
     = (Inl RuntimeError, \<lparr> private_key = [byte 0x50], public_key = [byte 0x50],
                        session_key = None, encryption = None \<rparr>)"
proof -
  have h: "\<not> has_session_key \<lparr> private_key = [byte 0x50], public_key = [byte 0x50],
                        session_key = None, encryption = None \<rparr>"
    by (simp add: has_session_key_def)
  show ?thesis
    using h no_session_key_raises [OF h, of double "[]" "[0x68, 0x69]" "[0x68, 0x69]"]
    by simp
qed

text \<open>
  Claim C5. When the unwrap of the envelope fails (the private key does not load, or the
  OAEP decryption raises), \<open>set_session_key_encrypted\<close> raises that error and the instance is
  exactly what it was before the call: \<open>session_key\<close> and \<open>encryption\<close> are untouched.
\<close>

theorem failed_unwrap_keeps_state:
  assumes "decrypt_with_private_key L (private_key ce) envelope = Inl e"
  shows "set_session_key_encrypted L rnd ce envelope = (Inl e, ce)"
  using assms by (simp add: set_session_key_encrypted_def)

theorem failed_unwrap_keeps_state_witness:
  "decrypt_with_private_key double
       (private_key \<lparr> private_key = [byte 0x50], public_key = [byte 0x50],
                      session_key = Some [byte 0x4B],
                      encryption = Some \<lparr> key = [byte 0x4B], cipher = Fernet [byte 0x4B] \<rparr> \<rparr>)
       [byte 0x51, byte 0x4C] = Inl ValueError
   \<and> set_session_key_encrypted double []
       \<lparr> private_key = [byte 0x50], public_key = [byte 0x50],
         session_key = Some [byte 0x4B],
         encryption = Some \<lparr> key = [byte 0x4B], cipher = Fernet [byte 0x4B] \<rparr> \<rparr>
       [byte 0x51, byte 0x4C]
     = (Inl ValueError,
        \<lparr> private_key = [byte 0x50], public_key = [byte 0x50],
          session_key = Some [byte 0x4B],
          encryption = Some \<lparr> key = [byte 0x4B], cipher = Fernet [byte 0x4B] \<rparr> \<rparr>)"
proof -
  have h: "decrypt_with_private_key double
       (private_key \<lparr> private_key = [byte 0x50], public_key = [byte 0x50],
                      session_key = Some [byte 0x4B],
                      encryption = Some \<lparr> key = [byte 0x4B], cipher = Fernet [byte 0x4B] \<rparr> \<rparr>)
       [byte 0x51, byte 0x4C] = Inl ValueError"
    by (simp add: decrypt_with_private_key_def double_def strip_prefix_def byte_def)
  show ?thesis
    using h failed_unwrap_keeps_state [OF h, of "[]"] by simp
qed

text \<open>
  Around the two claims: a freshly constructed \<open>ClientEncryption\<close> has no session key; a
  session key that unwraps but that the cipher constructor refuses is already assigned to
  \<open>session_key\<close> when ValueError is raised, with \<open>encryption\<close> left as it was; an accepted
  one is installed in both fields.
\<close>

lemma fresh_client_has_no_session_key:
  "ClientEncryption L rnd fs = (Inr ce, fs') \<Longrightarrow> \<not> has_session_key ce"
  by (auto simp: ClientEncryption_def has_session_key_def split: prod.splits sum.splits)

lemma rejected_session_key_is_kept:
  assumes "decrypt_with_private_key L (private_key ce) envelope = Inr sk"
    and "sk \<noteq> []" and "\<not> fernet_accepts L sk"
  shows "set_session_key_encrypted L rnd ce envelope
         = (Inl ValueError, ce\<lparr> session_key := Some sk \<rparr>)"
  using assms by (simp add: set_session_key_encrypted_def MessageEncryption_def Let_def)

lemma accepted_session_key_is_installed:
  assumes "decrypt_with_private_key L (private_key ce) envelope = Inr sk"
    and "sk \<noteq> []" and "fernet_accepts L sk"
  shows "set_session_key_encrypted L rnd ce envelope
         = (Inr (), ce\<lparr> session_key := Some sk,
                        encryption := Some \<lparr> key = sk, cipher = Fernet sk \<rparr> \<rparr>)"
  using assms by (simp add: set_session_key_encrypted_def MessageEncryption_def Let_def)

section \<open>The key of a \<open>MessageEncryption\<close>\<close>

lemma calls_cipher:
  "fernet_key (cipher (calls L me cs)) = key_in_force L (fernet_key (cipher me)) cs"
proof (induction cs arbitrary: me)
  case Nil
  show ?case by simp
next
  case (Cons c cs)
  show ?case
    by (cases c) (simp_all add: Cons.IH update_key_def Let_def)
qed

text \<open>
  Claim C4, as stated, fails: \<open>update_key\<close> replaces the key of an existing instance in
  place. An instance built from the key \<open>K\<close> holds the key \<open>L\<close> after \<open>update_key(L)\<close>,
  so the key its \<open>decrypt\<close> uses is no longer the one given to the constructor.
\<close>

theorem update_key_replaces_key:
  "MessageEncryption double [] (Some [byte 0x4B])
     = Inr \<lparr> key = [byte 0x4B], cipher = Fernet [byte 0x4B] \<rparr>
   \<and> update_key double \<lparr> key = [byte 0x4B], cipher = Fernet [byte 0x4B] \<rparr> [byte 0x4C]
     = (Inr (), \<lparr> key = [byte 0x4C], cipher = Fernet [byte 0x4C] \<rparr>)
   \<and> fernet_key (cipher (snd (update_key double
         \<lparr> key = [byte 0x4B], cipher = Fernet [byte 0x4B] \<rparr> [byte 0x4C]))) \<noteq> [byte 0x4B]"
  by (simp add: MessageEncryption_def update_key_def double_def byte_def Let_def)

text \<open>
  Claim C4, amended. For an instance built from a non-empty key \<open>k\<close>, after any sequence of
  calls the key that \<open>decrypt\<close> uses is the last key passed to \<open>update_key\<close> that the
  library accepted, and \<open>k\<close> when there was none: \<open>update_key\<close> is the only operation that
  replaces the key, and \<open>encrypt\<close>, \<open>decrypt\<close> and \<open>get_key\<close> leave it alone.
\<close>

theorem key_follows_update_key:
  assumes "MessageEncryption L rnd (Some k) = Inr me" and "k \<noteq> []"
  shows "fernet_key (cipher (calls L me cs)) = key_in_force L k cs"
proof -
  from assms have "fernet_key (cipher me) = k"
    by (auto simp: MessageEncryption_def Let_def split: if_splits)
  then show ?thesis by (simp add: calls_cipher)
qed

theorem key_follows_update_key_witness:
  "MessageEncryption double [] (Some [byte 0x4B])
     = Inr \<lparr> key = [byte 0x4B], cipher = Fernet [byte 0x4B] \<rparr>
   \<and> [byte 0x4B] \<noteq> []
   \<and> fernet_key (cipher (calls double \<lparr> key = [byte 0x4B], cipher = Fernet [byte 0x4B] \<rparr>
        [Encrypt [] [0x68], UpdateKey [byte 0x4C], GetKey, UpdateKey [], Decrypt [0x68]]))
     = [byte 0x4C]"
proof -
  have h: "MessageEncryption double [] (Some [byte 0x4B])
     = Inr \<lparr> key = [byte 0x4B], cipher = Fernet [byte 0x4B] \<rparr>"
    by (simp add: MessageEncryption_def double_def Let_def)
  have n: "[byte 0x4B] \<noteq> []" by simp
  show ?thesis
    using h n key_follows_update_key [OF h n,
      of "[Encrypt [] [0x68], UpdateKey [byte 0x4C], GetKey, UpdateKey [], Decrypt [0x68]]"]
    by (simp add: double_def)
qed

section \<open>The key store\<close>

lemma save_private_key_succeeds:
  assumes "private_key_file fs = None" and "can_save fs"
  shows "fst (save_private_key p fs) = Inr ()
       \<and> private_key_file (snd (save_private_key p fs))
           = Some \<lparr> pem = p, file_mode = 384, readable = True \<rparr>"
  using assms
  by (cases "config_dir fs")
     (simp_all add: save_private_key_def can_save_def mkdir_def open_wb_def write_key_def
        chmod_def owner_may_read_def)

lemma save_private_key_fails:
  assumes "\<not> can_save fs"
  shows "\<exists>e. fst (save_private_key p fs) = Inl e"
  using assms
  by (cases "config_dir fs")
     (auto simp: save_private_key_def can_save_def mkdir_def open_wb_def write_key_def
        chmod_def)

lemma save_private_key_creates_nothing:
  assumes "private_key_file fs = None"
    and "(config_dir fs = None \<and> \<not> may_mkdir fs) \<or> \<not> may_create fs"
  shows "private_key_file (snd (save_private_key p fs)) = None"
  using assms
  by (cases "config_dir fs")
     (auto simp: save_private_key_def mkdir_def open_wb_def)

text \<open>
  While \<open>chmod\<close> has not run the key file is not owner-only: when the write or the
  \<open>chmod\<close> raises, the file stays with the mode the umask gave it.
\<close>

lemma key_file_mode_before_chmod:
  assumes "private_key_file fs = None" and "config_dir fs \<noteq> None \<or> may_mkdir fs"
    and "may_create fs" and "may_write fs" and "\<not> may_chmod fs"
  shows "save_private_key p fs
         = (Inl PermissionError,
            (case mkdir fs of Inl e \<Rightarrow> fs | Inr fs1 \<Rightarrow> fs1)
              \<lparr> private_key_file := Some \<lparr> pem = p, file_mode = masked 438 (umask fs),
                      readable = owner_may_read (masked 438 (umask fs)) \<rparr> \<rparr>)"
  using assms
  by (cases "config_dir fs")
     (simp_all add: save_private_key_def mkdir_def open_wb_def write_key_def chmod_def)

text \<open>
  Claim C6, as stated, fails in its second half: with the store absent the handler calls
  \<open>save_private_key\<close>, whose \<open>mkdir\<close>, \<open>open\<close>, write and \<open>chmod\<close> can each raise, and
  nothing catches that. In a home directory where \<open>~/.terminal-chat\<close> cannot be created,
  \<open>get_or_create_key_pair\<close> raises PermissionError and persists nothing.
\<close>

theorem absent_store_not_persisted:
  "get_or_create_key_pair double [byte 1]
     \<lparr> config_dir = None, private_key_file = None, umask = 18, may_mkdir = False,
       may_create = True, may_write = True, may_chmod = True \<rparr>
   = (Inl PermissionError,
      \<lparr> config_dir = None, private_key_file = None, umask = 18, may_mkdir = False,
        may_create = True, may_write = True, may_chmod = True \<rparr>)"
  by (simp add: get_or_create_key_pair_def load_private_key_def save_private_key_def
        mkdir_def generate_key_pair_def Let_def)

text \<open>
  Claim C6, amended. When the key file exists and cannot be read, or its contents do not
  parse, \<open>get_or_create_key_pair\<close> raises (PermissionError, or the loader's error: what the
  spec calls KeyStoreError), generates nothing and leaves the store as it was. When the file
  is absent and the file system lets the directory be created (or has it), the file be
  created, written and its mode changed, the call returns a pair generated with key size
  2048 and leaves the private key in the file with mode 0o600 (decimal 384). When the file
  is absent and one of those steps is refused, the call raises; when it is the directory or
  the file that cannot be created, no key file exists afterwards.
\<close>

theorem key_store_outcomes:
  "(private_key_file fs = None \<and> can_save fs \<longrightarrow>
      fst (get_or_create_key_pair L rnd fs) = Inr (generate_key_pair L rnd)
      \<and> generate_key_pair L rnd
        = (private_bytes L (generate_private_key L 65537 key_size rnd),
           public_bytes L (generate_private_key L 65537 key_size rnd))
      \<and> 2048 \<le> key_size
      \<and> private_key_file (snd (get_or_create_key_pair L rnd fs))
        = Some \<lparr> pem = fst (generate_key_pair L rnd), file_mode = 384, readable = True \<rparr>)
   \<and> (private_key_file fs = None \<and> \<not> can_save fs \<longrightarrow>
         (\<exists>e. fst (get_or_create_key_pair L rnd fs) = Inl e))
   \<and> (private_key_file fs = None
        \<and> ((config_dir fs = None \<and> \<not> may_mkdir fs) \<or> \<not> may_create fs) \<longrightarrow>
         private_key_file (snd (get_or_create_key_pair L rnd fs)) = None)
   \<and> (\<forall>f. private_key_file fs = Some f \<and> \<not> readable f \<longrightarrow>
         get_or_create_key_pair L rnd fs = (Inl PermissionError, fs))
   \<and> (\<forall>f. private_key_file fs = Some f \<and> readable f \<and> load_pem_private_key L (pem f) = None \<longrightarrow>
         get_or_create_key_pair L rnd fs = (Inl ValueError, fs))"
proof -
  let ?p = "fst (generate_key_pair L rnd)"
  have absent: "private_key_file fs = None \<Longrightarrow>
      get_or_create_key_pair L rnd fs
        = (case save_private_key ?p fs of
             (Inl e', fs') \<Rightarrow> (Inl e', fs')
           | (Inr u, fs') \<Rightarrow> (Inr (generate_key_pair L rnd), fs'))"
    by (simp add: get_or_create_key_pair_def load_private_key_def Let_def)
  have 1: "private_key_file fs = None \<and> can_save fs \<longrightarrow>
      fst (get_or_create_key_pair L rnd fs) = Inr (generate_key_pair L rnd)
      \<and> private_key_file (snd (get_or_create_key_pair L rnd fs))
        = Some \<lparr> pem = ?p, file_mode = 384, readable = True \<rparr>"
  proof
    assume a: "private_key_file fs = None \<and> can_save fs"
    then have "fst (save_private_key ?p fs) = Inr ()"
      "private_key_file (snd (save_private_key ?p fs))
        = Some \<lparr> pem = ?p, file_mode = 384, readable = True \<rparr>"
      using save_private_key_succeeds [of fs ?p] by simp_all
    then show "fst (get_or_create_key_pair L rnd fs) = Inr (generate_key_pair L rnd)
      \<and> private_key_file (snd (get_or_create_key_pair L rnd fs))
        = Some \<lparr> pem = ?p, file_mode = 384, readable = True \<rparr>"
      using a absent by (cases "save_private_key ?p fs") auto
  qed
  have 2: "private_key_file fs = None \<and> \<not> can_save fs \<longrightarrow>
         (\<exists>e. fst (get_or_create_key_pair L rnd fs) = Inl e)"
  proof
    assume a: "private_key_file fs = None \<and> \<not> can_save fs"
    then obtain e where "fst (save_private_key ?p fs) = Inl e"
      using save_private_key_fails [of fs ?p] by blast
    then show "\<exists>e. fst (get_or_create_key_pair L rnd fs) = Inl e"
      using a absent by (cases "save_private_key ?p fs") auto
  qed
  have 3: "private_key_file fs = None
        \<and> ((config_dir fs = None \<and> \<not> may_mkdir fs) \<or> \<not> may_create fs) \<longrightarrow>
         private_key_file (snd (get_or_create_key_pair L rnd fs)) = None"
  proof
    assume a: "private_key_file fs = None
        \<and> ((config_dir fs = None \<and> \<not> may_mkdir fs) \<or> \<not> may_create fs)"
    then have "private_key_file (snd (save_private_key ?p fs)) = None"
      using save_private_key_creates_nothing [of fs ?p] by blast
    then show "private_key_file (snd (get_or_create_key_pair L rnd fs)) = None"
      using a absent by (cases "save_private_key ?p fs") (auto split: sum.splits)
  qed
  have 4: "\<forall>f. private_key_file fs = Some f \<and> \<not> readable f \<longrightarrow>
         get_or_create_key_pair L rnd fs = (Inl PermissionError, fs)"
    by (simp add: get_or_create_key_pair_def load_private_key_def)
  have 5: "\<forall>f. private_key_file fs = Some f \<and> readable f \<and> load_pem_private_key L (pem f) = None \<longrightarrow>
         get_or_create_key_pair L rnd fs = (Inl ValueError, fs)"
    by (simp add: get_or_create_key_pair_def load_private_key_def)
  have 6: "generate_key_pair L rnd
        = (private_bytes L (generate_private_key L 65537 key_size rnd),
           public_bytes L (generate_private_key L 65537 key_size rnd))"
    by (simp add: generate_key_pair_def Let_def)
  have 7: "2048 \<le> key_size" by (simp add: key_size_def)
  from 1 2 3 4 5 6 7 show ?thesis by blast
qed

theorem key_store_outcomes_witness:
  "(private_key_file fresh_home = None \<and> can_save fresh_home)
   \<and> fst (get_or_create_key_pair double [byte 1] fresh_home)
       = Inr ([byte 0x50, byte 1], [byte 1, byte 0x50])
   \<and> private_key_file (snd (get_or_create_key_pair double [byte 1] fresh_home))
       = Some \<lparr> pem = [byte 0x50, byte 1], file_mode = 384, readable = True \<rparr>
   \<and> (private_key_file (fresh_home\<lparr> may_mkdir := False \<rparr>) = None
        \<and> \<not> can_save (fresh_home\<lparr> may_mkdir := False \<rparr>)
        \<and> config_dir (fresh_home\<lparr> may_mkdir := False \<rparr>) = None
        \<and> \<not> may_mkdir (fresh_home\<lparr> may_mkdir := False \<rparr>))
   \<and> fst (get_or_create_key_pair double [byte 1] (fresh_home\<lparr> may_mkdir := False \<rparr>))
       = Inl PermissionError
   \<and> private_key_file
        (snd (get_or_create_key_pair double [byte 1] (fresh_home\<lparr> may_mkdir := False \<rparr>)))
       = None
   \<and> get_or_create_key_pair double [byte 1]
        (fresh_home\<lparr> config_dir := Some 448,
           private_key_file := Some \<lparr> pem = [byte 0x50], file_mode = 0, readable = False \<rparr> \<rparr>)
       = (Inl PermissionError,
          fresh_home\<lparr> config_dir := Some 448,
           private_key_file := Some \<lparr> pem = [byte 0x50], file_mode = 0, readable = False \<rparr> \<rparr>)
   \<and> get_or_create_key_pair double [byte 1]
        (fresh_home\<lparr> config_dir := Some 448,
           private_key_file := Some \<lparr> pem = [], file_mode = 384, readable = True \<rparr> \<rparr>)
       = (Inl ValueError,
          fresh_home\<lparr> config_dir := Some 448,
           private_key_file := Some \<lparr> pem = [], file_mode = 384, readable = True \<rparr> \<rparr>)"
proof -
  let ?refused = "fresh_home\<lparr> may_mkdir := False \<rparr>"
  let ?unreadable = "fresh_home\<lparr> config_dir := Some 448,
           private_key_file := Some \<lparr> pem = [byte 0x50], file_mode = 0, readable = False \<rparr> \<rparr>"
  let ?corrupt = "fresh_home\<lparr> config_dir := Some 448,
           private_key_file := Some \<lparr> pem = [], file_mode = 384, readable = True \<rparr> \<rparr>"
  have a: "private_key_file fresh_home = None \<and> can_save fresh_home"
    by (simp add: fresh_home_def can_save_def)
  have g: "generate_key_pair double [byte 1] = ([byte 0x50, byte 1], [byte 1, byte 0x50])"
    by (simp add: generate_key_pair_def double_def Let_def)
  have 1: "fst (get_or_create_key_pair double [byte 1] fresh_home)
       = Inr ([byte 0x50, byte 1], [byte 1, byte 0x50])
     \<and> private_key_file (snd (get_or_create_key_pair double [byte 1] fresh_home))
       = Some \<lparr> pem = [byte 0x50, byte 1], file_mode = 384, readable = True \<rparr>"
    using a key_store_outcomes [of fresh_home double "[byte 1]"] by (simp add: g double_def)
  have b: "private_key_file ?refused = None \<and> \<not> can_save ?refused
        \<and> config_dir ?refused = None \<and> \<not> may_mkdir ?refused"
    by (simp add: fresh_home_def can_save_def)
  have 2: "fst (get_or_create_key_pair double [byte 1] ?refused) = Inl PermissionError"
    by (simp add: fresh_home_def get_or_create_key_pair_def load_private_key_def
          save_private_key_def mkdir_def Let_def)
  have 3: "private_key_file (snd (get_or_create_key_pair double [byte 1] ?refused)) = None"
    using b key_store_outcomes [of ?refused double "[byte 1]"] by simp
  have c: "private_key_file ?unreadable
             = Some \<lparr> pem = [byte 0x50], file_mode = 0, readable = False \<rparr>
        \<and> \<not> readable \<lparr> pem = [byte 0x50], file_mode = 0, readable = False \<rparr>"
    by (simp add: fresh_home_def)
  have 4: "get_or_create_key_pair double [byte 1] ?unreadable = (Inl PermissionError, ?unreadable)"
    using c key_store_outcomes [of ?unreadable double "[byte 1]"] by simp
  have d: "private_key_file ?corrupt = Some \<lparr> pem = [], file_mode = 384, readable = True \<rparr>
        \<and> readable \<lparr> pem = [], file_mode = 384, readable = True \<rparr>
        \<and> load_pem_private_key double (pem \<lparr> pem = [], file_mode = 384, readable = True \<rparr>) = None"
    by (simp add: fresh_home_def double_def)
  have 5: "get_or_create_key_pair double [byte 1] ?corrupt = (Inl ValueError, ?corrupt)"
    using d key_store_outcomes [of ?corrupt double "[byte 1]"] by simp
  from a 1 b 2 3 4 5 show ?thesis by simp
qed

section \<open>Reconnect backoff and the outbound queue\<close>

lemma drain_fields:
  "reconnect_delay (drain link q c) = reconnect_delay c
   \<and> max_reconnect_delay (drain link q c) = max_reconnect_delay c
   \<and> connected (drain link q c) = connected c"
  by (induction q arbitrary: c) (simp_all add: transport_send_def Let_def)

lemma connect_delay:
  "reconnect_delay (connect link opened c)
     = (if opened then base_delay else min (reconnect_delay c * 2) (max_reconnect_delay c))"
  by (simp add: connect_def send_queued_messages_def drain_fields increase_reconnect_delay_def)

lemma connect_max:
  "max_reconnect_delay (connect link opened c) = max_reconnect_delay c"
  by (simp add: connect_def send_queued_messages_def drain_fields increase_reconnect_delay_def)

lemma connects_invariant:
  "max_reconnect_delay c = 60 \<Longrightarrow> base_delay \<le> reconnect_delay c \<Longrightarrow> reconnect_delay c \<le> 60 \<Longrightarrow>
   max_reconnect_delay (connects link os c) = 60
   \<and> base_delay \<le> reconnect_delay (connects link os c)
   \<and> reconnect_delay (connects link os c) \<le> 60"
proof (induction os arbitrary: c)
  case Nil
  then show ?case by simp
next
  case (Cons opened os)
  have "max_reconnect_delay (connect link opened c) = 60"
    using Cons.prems by (simp add: connect_max)
  moreover have "base_delay \<le> reconnect_delay (connect link opened c)"
    using Cons.prems by (simp add: connect_delay base_delay_def)
  moreover have "reconnect_delay (connect link opened c) \<le> 60"
    using Cons.prems by (simp add: connect_delay base_delay_def)
  ultimately show ?case using Cons.IH by simp
qed


lemma min_scale:
  fixes a m p :: nat
  assumes "1 \<le> p"
  shows "min (min a m * p) m = min (a * p) m"
proof (cases "a \<le> m")
  case True
  then show ?thesis by (simp add: min_def)
next
  case False
  then have "m < a" by simp
  have "m * 1 \<le> m * p" using assms by (intro mult_le_mono2)
  then have 1: "m \<le> m * p" by simp
  have "a * 1 \<le> a * p" using assms by (intro mult_le_mono2)
  then have "a \<le> a * p" by simp
  then have 2: "m \<le> a * p" using \<open>m < a\<close> by (rule_tac order_trans [of m a]) simp_all
  have "min a m = m" using \<open>m < a\<close> by (simp add: min_def)
  moreover have "min (m * p) m = m" using 1 by (rule min_absorb2)
  moreover have "min (a * p) m = m" using 2 by (rule min_absorb2)
  ultimately show ?thesis by (simp only:)
qed


lemma failures_delay:
  "reconnect_delay c \<le> 60 \<Longrightarrow> max_reconnect_delay c = 60 \<Longrightarrow>
   reconnect_delay (connects link (replicate n False) c) = min (reconnect_delay c * 2 ^ n) 60"
proof (induction n arbitrary: c)
  case 0
  then show ?case by simp
next
  case (Suc n)
  have "reconnect_delay (connect link False c) \<le> 60" "max_reconnect_delay (connect link False c) = 60"
    using Suc.prems by (simp_all add: connect_delay connect_max)
  from Suc.IH [OF this]
  have "reconnect_delay (connects link (replicate (Suc n) False) c)
        = min (min (reconnect_delay c * 2) 60 * 2 ^ n) 60"
    using Suc.prems by (simp add: connect_delay)
  also have "\<dots> = min (reconnect_delay c * 2 * 2 ^ n) 60"
    by (rule min_scale) simp
  finally show ?case by (simp add: mult.assoc)
qed

text \<open>
  Claim C7. The delay starts at \<open>base_delay = 1\<close> with a maximum of 60. After any history
  of connection attempts it is at most 60; a further failed attempt sets it to
  \<open>min (delay * 2) 60\<close>, which is never less than before; a successful \<open>connect\<close> sets it to
  \<open>base_delay\<close> again. After \<open>n\<close> failures in a row from the start it is \<open>min (2 ^ n) 60\<close>.
\<close>

theorem backoff_law:
  "reconnect_delay ChatConnection = 1
   \<and> max_reconnect_delay (connects link os ChatConnection) = 60
   \<and> reconnect_delay (connects link os ChatConnection) \<le> 60
   \<and> reconnect_delay (connect link False (connects link os ChatConnection))
       = min (reconnect_delay (connects link os ChatConnection) * 2) 60
   \<and> reconnect_delay (connects link os ChatConnection)
       \<le> reconnect_delay (connect link False (connects link os ChatConnection))
   \<and> reconnect_delay (connect link True (connects link os ChatConnection)) = 1
   \<and> reconnect_delay (connects link (replicate n False) ChatConnection) = min (2 ^ n) 60"
proof -
  have i: "max_reconnect_delay ChatConnection = 60" "base_delay \<le> reconnect_delay ChatConnection"
    "reconnect_delay ChatConnection \<le> 60"
    by (simp_all add: ChatConnection_def base_delay_def)
  note inv = connects_invariant [OF i, of link os]
  have "reconnect_delay (connects link (replicate n False) ChatConnection) = min (2 ^ n) 60"
    using failures_delay [OF i(3) i(1), of link n] by (simp add: ChatConnection_def base_delay_def)
  then show ?thesis using inv
    by (simp add: connect_delay ChatConnection_def base_delay_def)
qed

lemma enqueue_all:
  "\<not> connected c \<Longrightarrow>
   message_queue (send_messages link c ms) = message_queue c @ map (\<lambda>m. Message (fst m) (snd m)) ms
   \<and> wire (send_messages link c ms) = wire c
   \<and> \<not> connected (send_messages link c ms)"
proof (induction ms arbitrary: c)
  case Nil
  then show ?case by simp
next
  case (Cons m ms)
  have "\<not> connected (send_message link c (fst m) (snd m))"
    using Cons.prems by (simp add: send_message_def enqueue_def Let_def)
  from Cons.IH [OF this] show ?case using Cons.prems
    by (simp add: send_message_def enqueue_def Let_def)
qed

lemma drain_split:
  "\<exists>k \<le> length q. wire (drain link q c) = wire c @ take k q
      \<and> message_queue (drain link q c) = drop k q
      \<and> (k < length q \<longrightarrow> \<not> link (attempts c + k))
      \<and> (\<forall>i < k. link (attempts c + i))"
proof (induction q arbitrary: c)
  case Nil
  show ?case by simp
next
  case (Cons m q)
  show ?case
  proof (cases "link (attempts c)")
    case False
    then have "wire (drain link (m # q) c) = wire c @ take 0 (m # q)
      \<and> message_queue (drain link (m # q) c) = drop 0 (m # q)"
      by (simp add: transport_send_def)
    with False show ?thesis by (intro exI [of _ 0]) simp
  next
    case True
    let ?c = "c\<lparr> wire := wire c @ [m], attempts := Suc (attempts c) \<rparr>"
    from Cons.IH [of ?c] obtain k where k: "k \<le> length q"
      "wire (drain link q ?c) = wire ?c @ take k q"
      "message_queue (drain link q ?c) = drop k q"
      "k < length q \<longrightarrow> \<not> link (attempts ?c + k)"
      "\<forall>i < k. link (attempts ?c + i)" by blast
    have d: "drain link (m # q) c = drain link q ?c"
      using True by (simp add: transport_send_def)
    have "\<forall>i < Suc k. link (attempts c + i)"
    proof (intro allI impI)
      fix i assume "i < Suc k"
      show "link (attempts c + i)"
      proof (cases i)
        case 0
        then show ?thesis using True by simp
      next
        case (Suc j)
        then have "j < k" using \<open>i < Suc k\<close> by simp
        then show ?thesis using k(5) Suc by simp
      qed
    qed
    then show ?thesis using k d by (intro exI [of _ "Suc k"]) simp
  qed
qed


text \<open>
  Claim C8. \<open>M\<close> calls of \<open>send_message\<close> while disconnected append exactly those \<open>M\<close>
  messages to the queue, in call order, and send nothing. The drain of the following
  successful \<open>connect\<close> sends a prefix of the queue in queue order, each item once, and keeps
  the rest queued in order: the first \<open>k\<close> sends succeeded and, when items remain, the send
  of item \<open>k\<close> failed. When every send succeeds the whole queue is on the wire and the queue
  is empty.
\<close>

theorem offline_queue_fifo:
  assumes "\<not> connected c"
  shows "message_queue (send_messages link c ms)
           = message_queue c @ map (\<lambda>m. Message (fst m) (snd m)) ms
       \<and> length (message_queue (send_messages link c ms)) = length (message_queue c) + length ms
       \<and> (\<exists>k \<le> length (message_queue (send_messages link c ms)).
            wire (connect link' True (send_messages link c ms))
              = wire c @ take k (message_queue (send_messages link c ms))
            \<and> message_queue (connect link' True (send_messages link c ms))
              = drop k (message_queue (send_messages link c ms))
            \<and> (\<forall>i < k. link' (attempts (send_messages link c ms) + i))
            \<and> (k < length (message_queue (send_messages link c ms))
                 \<longrightarrow> \<not> link' (attempts (send_messages link c ms) + k)))
       \<and> ((\<forall>i. link' i) \<longrightarrow>
            wire (connect link' True (send_messages link c ms))
              = wire c @ message_queue (send_messages link c ms)
            \<and> message_queue (connect link' True (send_messages link c ms)) = [])"
proof -
  let ?c = "send_messages link c ms"
  let ?o = "?c\<lparr> connected := True, reconnect_delay := base_delay,
                 status := status ?c @ [''connected''] \<rparr>"
  note q = enqueue_all [OF assms, of link ms]
  have r: "connect link' True ?c = drain link' (message_queue ?c) ?o"
    by (simp add: connect_def send_queued_messages_def)
  from drain_split [of "message_queue ?c" link' ?o]
  obtain k where k: "k \<le> length (message_queue ?c)"
    "wire (drain link' (message_queue ?c) ?o) = wire ?o @ take k (message_queue ?c)"
    "message_queue (drain link' (message_queue ?c) ?o) = drop k (message_queue ?c)"
    "k < length (message_queue ?c) \<longrightarrow> \<not> link' (attempts ?o + k)"
    "\<forall>i < k. link' (attempts ?o + i)" by blast
  have w: "wire ?o = wire c" using q by simp
  have a: "attempts ?o = attempts ?c" by simp
  have part: "\<exists>k \<le> length (message_queue ?c).
            wire (connect link' True ?c) = wire c @ take k (message_queue ?c)
            \<and> message_queue (connect link' True ?c) = drop k (message_queue ?c)
            \<and> (\<forall>i < k. link' (attempts ?c + i))
            \<and> (k < length (message_queue ?c) \<longrightarrow> \<not> link' (attempts ?c + k))"
    using k unfolding r w a by blast
  have full: "(\<forall>i. link' i) \<longrightarrow>
            wire (connect link' True ?c) = wire c @ message_queue ?c
            \<and> message_queue (connect link' True ?c) = []"
  proof
    assume all: "\<forall>i. link' i"
    with k(4) have "\<not> k < length (message_queue ?c)" by blast
    with k(1) have "k = length (message_queue ?c)" by simp
    then show "wire (connect link' True ?c) = wire c @ message_queue ?c
            \<and> message_queue (connect link' True ?c) = []"
      using k(2,3) unfolding r w by simp
  qed
  from q part full show ?thesis by simp
qed

theorem offline_queue_fifo_witness:
  "\<not> connected ChatConnection
   \<and> message_queue (send_messages (\<lambda>i. True) ChatConnection
        [([0x31], [0x67]), ([0x32], [0x67]), ([0x33], [0x67])])
     = [Message [0x31] [0x67], Message [0x32] [0x67], Message [0x33] [0x67]]
   \<and> wire (connect (\<lambda>i. True) True (send_messages (\<lambda>i. True) ChatConnection
        [([0x31], [0x67]), ([0x32], [0x67]), ([0x33], [0x67])]))
     = [Message [0x31] [0x67], Message [0x32] [0x67], Message [0x33] [0x67]]
   \<and> message_queue (connect (\<lambda>i. True) True (send_messages (\<lambda>i. True) ChatConnection
        [([0x31], [0x67]), ([0x32], [0x67]), ([0x33], [0x67])])) = []"
proof -
  have h: "\<not> connected ChatConnection" by (simp add: ChatConnection_def)
  have w: "wire ChatConnection = []" "message_queue ChatConnection = []"
    by (simp_all add: ChatConnection_def)
  show ?thesis
    using h w offline_queue_fifo [OF h, of "\<lambda>i. True"
        "[([0x31], [0x67]), ([0x32], [0x67]), ([0x33], [0x67])]" "\<lambda>i. True"]
    by simp
qed

section \<open>The typing indicator\<close>

lemmas ui_defs = run_def ChatScreen_def set_typing_indicator_callback_def on_input_changed_def
  on_input_submitted_def tick_def set_timer_def remove_timer_def typing_indicator_def
  stop_typing_indicator_def strip_def isspace_def Let_def dispatch_def app_run_def

text \<open>
  What one call of \<open>on_input_changed\<close> sends: a keystroke while not marked typing sends one
  \<open>True\<close>; a keystroke while marked typing sends nothing; clearing the input sends one
  \<open>False\<close> only while marked typing.
\<close>

lemma keystroke_starts_typing:
  assumes "typing_indicator_callback s" and "\<not> is_currently_typing s" and "v \<noteq> []"
  shows "typing_events (on_input_changed s ''message-input'' v) = typing_events s @ [True]
       \<and> is_currently_typing (on_input_changed s ''message-input'' v)"
  using assms
  by (simp add: on_input_changed_def set_timer_def remove_timer_def typing_indicator_def Let_def
        split: option.split)

lemma keystroke_while_typing:
  assumes "is_currently_typing s" and "v \<noteq> []"
  shows "typing_events (on_input_changed s ''message-input'' v) = typing_events s"
  using assms
  by (simp add: on_input_changed_def set_timer_def remove_timer_def typing_indicator_def Let_def
        split: option.split)

lemma clearing_stops_typing:
  assumes "typing_indicator_callback s"
  shows "typing_events (on_input_changed s ''message-input'' [])
           = (if is_currently_typing s then typing_events s @ [False] else typing_events s)
       \<and> \<not> is_currently_typing (on_input_changed s ''message-input'' [])"
  using assms
  by (simp add: on_input_changed_def remove_timer_def typing_indicator_def Let_def
        split: option.split)

text \<open>
  The timers are never cancelled, so the timer of the first keystroke fires three seconds
  after that keystroke even while the user goes on typing: with keystrokes at 0 and 2
  seconds, \<open>False\<close> is sent at 3 seconds, and the next keystroke sends \<open>True\<close> again.
\<close>

lemma first_timer_fires_while_typing:
  "typing_events (app_run (set_typing_indicator_callback ChatScreen)
      [Changed ''message-input'' [0x68], Tick, Tick, Changed ''message-input'' [0x68, 0x69],
       Tick, Changed ''message-input'' [0x68, 0x69, 0x21]])
     = [True, False, True]"
  by (simp add: ui_defs)

text \<open>
  In the running application the submit is followed by the \<open>Input.Changed\<close> that the reset
  of the input posts. On both inputs of the theorem below the callback is again called with
  \<open>True\<close>, \<open>False\<close>, \<open>False\<close>: after a submit at once, the second \<open>False\<close> comes from the
  clearing branch of \<open>on_input_changed\<close>, which finds the screen still marked typing.
\<close>

lemma submit_in_running_app:
  "typing_events (app_run (set_typing_indicator_callback ChatScreen)
      [Changed ''message-input'' [0x68], Tick, Tick, Tick, Submitted [0x68]])
     = [True, False, False]
   \<and> typing_events (app_run (set_typing_indicator_callback ChatScreen)
      [Changed ''message-input'' [0x68], Submitted [0x68]])
     = [True, False, False]
   \<and> typing_events (app_run (set_typing_indicator_callback ChatScreen)
      [Changed ''message-input'' [0x68], Submitted [0x68], Tick, Tick, Tick])
     = [True, False, False]"
  by (simp add: ui_defs)

text \<open>
  Claim C9 fails on the submit path. With a callback set, the user types \<open>h\<close>: one \<open>True\<close> is
  sent. Three seconds pass, the timer fires, one \<open>False\<close> is sent and the screen is no longer
  marked typing; submitting the message then sends a second \<open>False\<close>. When the message is
  submitted at once instead, the handler sends \<open>False\<close> but leaves the timer pending and the
  screen marked typing, and a second \<open>False\<close> follows: from the timer when the handlers are
  called one after the other as here, from the posted \<open>Input.Changed\<close> in the running
  application.
\<close>

theorem submit_repeats_stop_typing:
  "typing_events (run (set_typing_indicator_callback ChatScreen)
      [Changed ''message-input'' [0x68], Tick, Tick, Tick, Submitted [0x68]])
     = [True, False, False]
   \<and> \<not> is_currently_typing (run (set_typing_indicator_callback ChatScreen)
      [Changed ''message-input'' [0x68], Tick, Tick, Tick])
   \<and> typing_events (run (set_typing_indicator_callback ChatScreen)
      [Changed ''message-input'' [0x68], Submitted [0x68], Tick, Tick, Tick])
     = [True, False, False]
   \<and> timers (run (set_typing_indicator_callback ChatScreen)
      [Changed ''message-input'' [0x68], Submitted [0x68]]) = [(0, 3)]
   \<and> is_currently_typing (run (set_typing_indicator_callback ChatScreen)
      [Changed ''message-input'' [0x68], Submitted [0x68]])"
  by (simp add: ui_defs)

section \<open>The round trip of a message\<close>

lemma unat_byte: "n < 256 \<Longrightarrow> unat (byte n) = n"
  by (simp add: byte_def unat_of_nat)

lemma byte_unat: "byte (unat b) = b"
  by (simp add: byte_def)

lemma decode1:
  "n < 0x80 \<Longrightarrow> bytes_decode (byte n # rest) = emit n (bytes_decode rest)"
  by (simp add: unat_byte)

lemma decode2:
  assumes "0xC2 \<le> a" "a < 0xE0" "0x80 \<le> b" "b < 0xC0"
  shows "bytes_decode (byte a # byte b # rest)
         = emit ((a - 0xC0) * 64 + (b - 0x80)) (bytes_decode rest)"
proof -
  have "unat (byte a) = a" "unat (byte b) = b"
    using assms by (simp_all add: unat_byte)
  then show ?thesis using assms by (simp add: continuation_def)
qed

lemma decode3:
  assumes "0xE0 \<le> a" "a < 0xF0" "0x80 \<le> b" "b < 0xC0" "0x80 \<le> c" "c < 0xC0"
    and "0x800 \<le> (a - 0xE0) * 4096 + (b - 0x80) * 64 + (c - 0x80)"
    and "\<not> (0xD800 \<le> (a - 0xE0) * 4096 + (b - 0x80) * 64 + (c - 0x80)
            \<and> (a - 0xE0) * 4096 + (b - 0x80) * 64 + (c - 0x80) < 0xE000)"
  shows "bytes_decode (byte a # byte b # byte c # rest)
         = emit ((a - 0xE0) * 4096 + (b - 0x80) * 64 + (c - 0x80)) (bytes_decode rest)"
proof -
  have u: "unat (byte a) = a" "unat (byte b) = b" "unat (byte c) = c"
    using assms by (simp_all add: unat_byte)
  have h: "\<not> a < 0x80" "\<not> (0xC2 \<le> a \<and> a < 0xE0)" using assms by simp_all
  show ?thesis
    unfolding bytes_decode.simps(2) [of "byte a"] Let_def u
    using assms(1-6) assms(7) assms(8) h
    by (simp add: continuation_def u del: bytes_decode.simps)
qed

lemma decode4:
  assumes "0xF0 \<le> a" "a < 0xF5" "0x80 \<le> b" "b < 0xC0" "0x80 \<le> c" "c < 0xC0"
    "0x80 \<le> d" "d < 0xC0"
    and "0x10000 \<le> (a - 0xF0) * 262144 + (b - 0x80) * 4096 + (c - 0x80) * 64 + (d - 0x80)"
    and "(a - 0xF0) * 262144 + (b - 0x80) * 4096 + (c - 0x80) * 64 + (d - 0x80) < 0x110000"
  shows "bytes_decode (byte a # byte b # byte c # byte d # rest)
         = emit ((a - 0xF0) * 262144 + (b - 0x80) * 4096 + (c - 0x80) * 64 + (d - 0x80))
             (bytes_decode rest)"
proof -
  have u: "unat (byte a) = a" "unat (byte b) = b" "unat (byte c) = c" "unat (byte d) = d"
    using assms by (simp_all add: unat_byte)
  have h: "\<not> a < 0x80" "\<not> (0xC2 \<le> a \<and> a < 0xE0)" "\<not> (0xE0 \<le> a \<and> a < 0xF0)"
    using assms by simp_all
  show ?thesis
    unfolding bytes_decode.simps(2) [of "byte a"] Let_def u
    using assms h
    by (simp add: continuation_def u del: bytes_decode.simps)
qed


lemma radix3: "p * 4096 + q * 64 + r = (p * 64 + q) * 64 + (r::nat)"
  by (simp add: algebra_simps)

lemma radix4: "p * 262144 + q * 4096 + r * 64 + s = (p * 64 + q) * 4096 + (r * 64 + (s::nat))"
  by (simp add: algebra_simps)

lemma split3: "(c::nat) div 4096 * 4096 + c div 64 mod 64 * 64 + c mod 64 = c"
proof -
  define x where "x = c div 64"
  have 1: "x * 64 + c mod 64 = c" unfolding x_def by (rule div_mult_mod_eq)
  have 2: "x div 64 * 64 + x mod 64 = x" by (rule div_mult_mod_eq)
  have 3: "c div 4096 = x div 64" unfolding x_def using div_mult2_eq [of c 64 64] by simp
  have "x div 64 * 4096 + x mod 64 * 64 + c mod 64 = (x div 64 * 64 + x mod 64) * 64 + c mod 64"
    by (rule radix3)
  also have "\<dots> = c" unfolding 2 by (rule 1)
  finally show ?thesis unfolding 3 x_def .
qed

lemma split4:
  "(c::nat) div 262144 * 262144 + c div 4096 mod 64 * 4096 + c div 64 mod 64 * 64 + c mod 64 = c"
proof -
  define y where "y = c div 4096"
  define z where "z = c mod 4096"
  have 1: "y * 4096 + z = c" unfolding y_def z_def by (rule div_mult_mod_eq)
  have 2: "y div 64 * 64 + y mod 64 = y" by (rule div_mult_mod_eq)
  have 3: "c div 262144 = y div 64" unfolding y_def using div_mult2_eq [of c 4096 64] by simp
  have 4: "c div 64 mod 64 = z div 64"
    unfolding z_def using mod_mult2_eq [of c 64 64] by simp
  have 5: "c mod 64 = z mod 64"
    unfolding z_def using mod_mod_cancel [of 64 4096 c] by simp
  have 6: "z div 64 * 64 + z mod 64 = z" by (rule div_mult_mod_eq)
  have "y div 64 * 262144 + y mod 64 * 4096 + z div 64 * 64 + z mod 64
        = (y div 64 * 64 + y mod 64) * 4096 + (z div 64 * 64 + z mod 64)"
    by (rule radix4)
  also have "\<dots> = c" unfolding 2 6 by (rule 1)
  finally show ?thesis unfolding 3 4 5 y_def [symmetric] .
qed

lemma decode_encode_char:
  assumes "encode_char c = Some bs"
  shows "bytes_decode (bs @ rest) = emit c (bytes_decode rest)"
proof -
  consider (one) "c < 0x80" | (two) "0x80 \<le> c" "c < 0x800"
    | (three) "0x800 \<le> c" "c < 0x10000" "\<not> (0xD800 \<le> c \<and> c < 0xE000)"
    | (four) "0x10000 \<le> c" "c < 0x110000"
    using assms by (auto simp: encode_char_def split: if_splits)
  then show ?thesis
  proof cases
    case one
    then have "bs = [byte c]" using assms by (simp add: encode_char_def)
    then show ?thesis using one by (simp add: decode1 del: bytes_decode.simps)
  next
    case two
    then have bs: "bs = [byte (0xC0 + c div 64), byte (0x80 + c mod 64)]"
      using assms by (simp add: encode_char_def)
    have r: "0xC2 \<le> 0xC0 + c div 64" "0xC0 + c div 64 < 0xE0"
      "0x80 \<le> 0x80 + c mod 64" "0x80 + c mod 64 < 0xC0"
      using two by simp_all
    have v: "(0xC0 + c div 64 - 0xC0) * 64 + (0x80 + c mod 64 - 0x80) = c"
      by simp
    show ?thesis unfolding bs using decode2 [OF r, of rest] unfolding v by simp
  next
    case three
    then have bs: "bs = [byte (0xE0 + c div 4096), byte (0x80 + c div 64 mod 64),
                         byte (0x80 + c mod 64)]"
      using assms by (auto simp: encode_char_def split: if_splits)
    have r: "0xE0 \<le> 0xE0 + c div 4096" "0xE0 + c div 4096 < 0xF0"
      "0x80 \<le> 0x80 + c div 64 mod 64" "0x80 + c div 64 mod 64 < 0xC0"
      "0x80 \<le> 0x80 + c mod 64" "0x80 + c mod 64 < 0xC0"
      using three by simp_all
    have v: "(0xE0 + c div 4096 - 0xE0) * 4096 + (0x80 + c div 64 mod 64 - 0x80) * 64
             + (0x80 + c mod 64 - 0x80) = c"
      using split3 [of c] by simp
    show ?thesis unfolding bs using decode3 [OF r, of rest] three unfolding v by simp
  next
    case four
    then have bs: "bs = [byte (0xF0 + c div 262144), byte (0x80 + c div 4096 mod 64),
                         byte (0x80 + c div 64 mod 64), byte (0x80 + c mod 64)]"
      using assms by (auto simp: encode_char_def split: if_splits)
    have r: "0xF0 \<le> 0xF0 + c div 262144" "0xF0 + c div 262144 < 0xF5"
      "0x80 \<le> 0x80 + c div 4096 mod 64" "0x80 + c div 4096 mod 64 < 0xC0"
      "0x80 \<le> 0x80 + c div 64 mod 64" "0x80 + c div 64 mod 64 < 0xC0"
      "0x80 \<le> 0x80 + c mod 64" "0x80 + c mod 64 < 0xC0"
      using four by simp_all
    have v: "(0xF0 + c div 262144 - 0xF0) * 262144 + (0x80 + c div 4096 mod 64 - 0x80) * 4096
             + (0x80 + c div 64 mod 64 - 0x80) * 64 + (0x80 + c mod 64 - 0x80) = c"
      using split4 [of c] by simp
    show ?thesis unfolding bs using decode4 [OF r, of rest] four unfolding v by simp
  qed
qed

lemma emit_Inr: "emit c (Inr cs) = Inr (c # cs)"
  by (simp add: emit_def)

lemma decode_encode:
  "str_encode s = Inr bs \<Longrightarrow> bytes_decode bs = Inr s"
proof (induction s arbitrary: bs)
  case Nil
  then show ?case by simp
next
  case (Cons c cs)
  from Cons.prems obtain hd tl where e: "encode_char c = Some hd" "str_encode cs = Inr tl"
    "bs = hd @ tl"
    by (auto split: option.splits sum.splits)
  from Cons.IH [OF e(2)] have "bytes_decode tl = Inr cs" .
  then show ?case unfolding e(3) decode_encode_char [OF e(1)] by (simp add: emit_Inr)
qed


lemma scalar_encode_char: "scalar c \<Longrightarrow> \<exists>bs. encode_char c = Some bs"
  by (simp add: scalar_def encode_char_def)

lemma scalar_str_encode: "list_all scalar s \<Longrightarrow> str_encode s = Inr (utf8 s)"
proof (induction s)
  case Nil
  show ?case by (simp add: utf8_def)
next
  case (Cons c cs)
  then obtain bs where "encode_char c = Some bs" using scalar_encode_char by auto
  moreover have "str_encode cs = Inr (utf8 cs)" using Cons by simp
  ultimately show ?case by (simp add: utf8_def)
qed

lemma ascii_decode: "ascii bs \<Longrightarrow> bytes_decode bs = Inr (map unat bs)"
proof (induction bs)
  case Nil
  show ?case by simp
next
  case (Cons b bs)
  then have "unat b < 0x80" "bytes_decode bs = Inr (map unat bs)"
    by (simp_all add: ascii_def)
  then show ?case by (simp add: emit_Inr)
qed

lemma ascii_encode: "ascii bs \<Longrightarrow> str_encode (map unat bs) = Inr bs"
proof (induction bs)
  case Nil
  show ?case by simp
next
  case (Cons b bs)
  then have "unat b < 0x80" "str_encode (map unat bs) = Inr bs"
    by (simp_all add: ascii_def)
  then show ?case by (simp add: encode_char_def byte_unat)
qed

text \<open>
  Claim C1, amended. For every plaintext made of code points that \<open>str.encode()\<close> accepts
  (no lone surrogate), and a library whose \<open>decrypt\<close> returns the data of the token its
  \<open>encrypt\<close> made of the plaintext's UTF-8 bytes under the same key, that token being ASCII
  text: decrypting what \<open>encrypt\<close> returned gives back exactly the plaintext.
\<close>

theorem encrypt_decrypt_roundtrip:
  assumes "list_all scalar P"
    and "fernet_decrypt L (fernet_key (cipher me))
           (fernet_encrypt L (fernet_key (cipher me)) rnd (utf8 P)) = Some (utf8 P)"
    and "ascii (fernet_encrypt L (fernet_key (cipher me)) rnd (utf8 P))"
  shows "(case encrypt L rnd me P of Inl e \<Rightarrow> Inl e | Inr token \<Rightarrow> decrypt L me token) = Inr P"
proof -
  let ?t = "fernet_encrypt L (fernet_key (cipher me)) rnd (utf8 P)"
  have e: "str_encode P = Inr (utf8 P)" using assms(1) by (rule scalar_str_encode)
  have enc: "encrypt L rnd me P = Inr (map unat ?t)"
    using ascii_decode [OF assms(3)] by (simp add: encrypt_def e)
  have re: "str_encode (map unat ?t) = Inr ?t" using assms(3) by (rule ascii_encode)
  have "bytes_decode (utf8 P) = Inr P" using e by (rule decode_encode)
  then have "decrypt L me (map unat ?t) = Inr P"
    by (simp add: decrypt_def re assms(2))
  with enc show ?thesis by simp
qed

theorem encrypt_decrypt_roundtrip_witness:
  "list_all scalar [0x68, 0x69]
   \<and> fernet_decrypt double (fernet_key (cipher \<lparr> key = [byte 0x4B], cipher = Fernet [byte 0x4B] \<rparr>))
        (fernet_encrypt double
           (fernet_key (cipher \<lparr> key = [byte 0x4B], cipher = Fernet [byte 0x4B] \<rparr>)) []
           (utf8 [0x68, 0x69])) = Some (utf8 [0x68, 0x69])
   \<and> ascii (fernet_encrypt double
           (fernet_key (cipher \<lparr> key = [byte 0x4B], cipher = Fernet [byte 0x4B] \<rparr>)) []
           (utf8 [0x68, 0x69]))
   \<and> (case encrypt double [] \<lparr> key = [byte 0x4B], cipher = Fernet [byte 0x4B] \<rparr> [0x68, 0x69] of
         Inl e \<Rightarrow> Inl e
       | Inr token \<Rightarrow> decrypt double \<lparr> key = [byte 0x4B], cipher = Fernet [byte 0x4B] \<rparr> token)
     = Inr [0x68, 0x69]"
proof -
  have a: "list_all scalar [0x68, 0x69]" by (simp add: scalar_def)
  have u: "utf8 [0x68, 0x69] = [byte 0x68, byte 0x69]"
    by (simp add: utf8_def encode_char_def)
  have b: "fernet_decrypt double (fernet_key (cipher \<lparr> key = [byte 0x4B], cipher = Fernet [byte 0x4B] \<rparr>))
        (fernet_encrypt double
           (fernet_key (cipher \<lparr> key = [byte 0x4B], cipher = Fernet [byte 0x4B] \<rparr>)) []
           (utf8 [0x68, 0x69])) = Some (utf8 [0x68, 0x69])"
    by (simp add: u double_def strip_prefix_def)
  have c: "ascii (fernet_encrypt double
           (fernet_key (cipher \<lparr> key = [byte 0x4B], cipher = Fernet [byte 0x4B] \<rparr>)) []
           (utf8 [0x68, 0x69]))"
    by (simp add: u double_def ascii_def byte_def)
  from a b c encrypt_decrypt_roundtrip [OF a b c] show ?thesis by blast
qed

text \<open>
  Claim C1, as stated for every plaintext string, fails: a Python \<open>str\<close> may hold a lone
  surrogate, such as the one-character string of code point 0xD800, and \<open>message.encode()\<close>
  raises UnicodeEncodeError on it, so \<open>encrypt\<close> returns no token.
\<close>

theorem lone_surrogate_not_encrypted:
  "MessageEncryption double [] (Some [byte 0x4B])
     = Inr \<lparr> key = [byte 0x4B], cipher = Fernet [byte 0x4B] \<rparr>
   \<and> (case encrypt double [] \<lparr> key = [byte 0x4B], cipher = Fernet [byte 0x4B] \<rparr> [0xD800] of
         Inl e \<Rightarrow> Inl e
       | Inr token \<Rightarrow> decrypt double \<lparr> key = [byte 0x4B], cipher = Fernet [byte 0x4B] \<rparr> token)
     = Inl UnicodeEncodeError"
  by (simp add: MessageEncryption_def double_def Let_def encrypt_def encode_char_def)

text \<open>
  The codec on the text \<open>H\<close>, e-acute, the euro sign and an emoji, and the byte sequences a
  strict decoder refuses: an overlong form, an encoded surrogate, a value above 0x10FFFF and a
  truncated sequence.
\<close>

lemma utf8_examples:
  "str_encode [0x48, 0xE9, 0x20AC, 0x1F389]
     = Inr [0x48, 0xC3, 0xA9, 0xE2, 0x82, 0xAC, 0xF0, 0x9F, 0x8E, 0x89]"
  "bytes_decode [0x48, 0xC3, 0xA9, 0xE2, 0x82, 0xAC, 0xF0, 0x9F, 0x8E, 0x89]
     = Inr [0x48, 0xE9, 0x20AC, 0x1F389]"
  "bytes_decode [0xC0, 0x80] = Inl UnicodeDecodeError"
  "bytes_decode [0xED, 0xA0, 0x80] = Inl UnicodeDecodeError"
  "bytes_decode [0xF4, 0x90, 0x80, 0x80] = Inl UnicodeDecodeError"
  "bytes_decode [0xE2, 0x82] = Inl UnicodeDecodeError"
  by (simp_all add: encode_char_def byte_def continuation_def emit_def)

text \<open>
  \<open>encrypt\<close> hands on whatever freshness the library provides: two different ASCII tokens
  of the library are returned as two different strings.
\<close>

lemma byte_unat_list: "map byte (map unat xs) = xs"
  by (induction xs) (simp_all add: byte_unat)

lemma unat_injective_on_bytes:
  assumes "map unat (xs :: bytes) = map unat ys"
  shows "xs = ys"
proof -
  have "map byte (map unat xs) = map byte (map unat ys)" using assms by (rule arg_cong)
  then show ?thesis by (simp only: byte_unat_list)
qed

lemma encrypt_keeps_tokens_apart:
  assumes "list_all scalar P"
    and "ascii (fernet_encrypt L (fernet_key (cipher me)) r1 (utf8 P))"
    and "ascii (fernet_encrypt L (fernet_key (cipher me)) r2 (utf8 P))"
    and "fernet_encrypt L (fernet_key (cipher me)) r1 (utf8 P)
         \<noteq> fernet_encrypt L (fernet_key (cipher me)) r2 (utf8 P)"
  shows "encrypt L r1 me P \<noteq> encrypt L r2 me P"
proof -
  have e: "str_encode P = Inr (utf8 P)" using assms(1) by (rule scalar_str_encode)
  have "encrypt L r1 me P = Inr (map unat (fernet_encrypt L (fernet_key (cipher me)) r1 (utf8 P)))"
    using ascii_decode [OF assms(2)] by (simp add: encrypt_def e)
  moreover
  have "encrypt L r2 me P = Inr (map unat (fernet_encrypt L (fernet_key (cipher me)) r2 (utf8 P)))"
    using ascii_decode [OF assms(3)] by (simp add: encrypt_def e)
  ultimately show ?thesis using assms(4) unat_injective_on_bytes by auto
qed

section \<open>Tokens under another key\<close>








end
